theory Spec2Isabelle
  imports Main "HOL-Library.AList" "HOL-Library.Char_ord" "HOL-Library.List_Lexorder"
begin

section \<open>Board geometry (index.js, lines 27-50)\<close>

datatype color = Red | Green | Yellow | Blue

text \<open>The property names of the colour-keyed objects, as the JavaScript source spells them.\<close>

fun colorName :: "color \<Rightarrow> string" where
  "colorName Red = ''red''"
| "colorName Green = ''green''"
| "colorName Yellow = ''yellow''"
| "colorName Blue = ''blue''"

definition BOARD_SIZE :: int where
  "BOARD_SIZE = 52"

fun START_POSITIONS :: "color \<Rightarrow> int" where
  "START_POSITIONS Red = 1"
| "START_POSITIONS Green = 14"
| "START_POSITIONS Yellow = 27"
| "START_POSITIONS Blue = 40"

fun HOME_STRETCH_START :: "color \<Rightarrow> int" where
  "HOME_STRETCH_START Red = 51"
| "HOME_STRETCH_START Green = 12"
| "HOME_STRETCH_START Yellow = 25"
| "HOME_STRETCH_START Blue = 38"

definition SAFE_POSITIONS :: "int list" where
  "SAFE_POSITIONS = [1, 9, 14, 22, 27, 35, 40, 48]"

text \<open>
  JavaScript's \<open>%\<close> on integers truncates towards zero: the result has the sign of the
  dividend. (A zero divisor gives NaN; that case is handled where it can arise.)
\<close>

definition js_rem :: "int \<Rightarrow> int \<Rightarrow> int" where
  "js_rem a b = sgn a * (\<bar>a\<bar> mod \<bar>b\<bar>)"

section \<open>Data model (createGameState, lines 53-88, and the handlers' room object)\<close>

record piece =
  position :: int
  homeIndex :: int
  isInHomeStretch :: bool

text \<open>
  The object \<open>pieces: { red: [...], green: [...], yellow: [...], blue: [...] }\<close>. Its four
  keys are created once and never added or removed, so it is a record of four arrays;
  \<open>Object.entries\<close> lists them in creation order.
\<close>

record piecesByColor =
  red :: "piece list"
  green :: "piece list"
  yellow :: "piece list"
  blue :: "piece list"

fun piecesOf :: "piecesByColor \<Rightarrow> color \<Rightarrow> piece list" where
  "piecesOf ps Red = red ps"
| "piecesOf ps Green = green ps"
| "piecesOf ps Yellow = yellow ps"
| "piecesOf ps Blue = blue ps"

fun setPiecesOf :: "piecesByColor \<Rightarrow> color \<Rightarrow> piece list \<Rightarrow> piecesByColor" where
  "setPiecesOf ps Red xs = ps\<lparr>red := xs\<rparr>"
| "setPiecesOf ps Green xs = ps\<lparr>green := xs\<rparr>"
| "setPiecesOf ps Yellow xs = ps\<lparr>yellow := xs\<rparr>"
| "setPiecesOf ps Blue xs = ps\<lparr>blue := xs\<rparr>"

definition entries :: "piecesByColor \<Rightarrow> (color \<times> piece list) list" where
  "entries ps = [(Red, red ps), (Green, green ps), (Yellow, yellow ps), (Blue, blue ps)]"

type_synonym sid = string

text \<open>
  A player's \<open>color\<close> is whatever \<open>colors.find\<close> returned at join time: a colour, or
  \<open>undefined\<close> (\<open>None\<close>) when no colour was free.
\<close>

record player =
  name :: string
  color :: "color option"
  isHost :: bool

text \<open>
  \<open>currentPlayer\<close> is a JavaScript number: the handlers compute it with \<open>%\<close>, which
  yields NaN for a zero divisor.
\<close>

datatype jsnum = Num int | NaN

text \<open>
  A room. \<open>players\<close> is an object keyed by socket id; socket ids are not integer-like
  keys, so its keys are enumerated in insertion order and it is an association list.
  \<open>lastRoll\<close> starts as \<open>null\<close>.
\<close>

record room =
  players :: "(sid \<times> player) list"
  currentPlayer :: jsnum
  gameStarted :: bool
  diceValue :: int
  lastRoll :: "int option"
  canRollAgain :: bool
  pieces :: piecesByColor
  roomCode :: string
  playerCount :: int

definition newPiece :: "int \<Rightarrow> piece" where
  "newPiece k = \<lparr>position = -1, homeIndex = k, isInHomeStretch = False\<rparr>"

definition initialPieces :: piecesByColor where
  "initialPieces =
     \<lparr>red = map newPiece [0, 1, 2, 3], green = map newPiece [0, 1, 2, 3],
      yellow = map newPiece [0, 1, 2, 3], blue = map newPiece [0, 1, 2, 3]\<rparr>"

section \<open>Rules engine\<close>

subsection \<open>canMovePiece (lines 90-103)\<close>

definition canMovePiece :: "piece \<Rightarrow> int \<Rightarrow> color \<Rightarrow> bool" where
  "canMovePiece p dice col =
     (if position p = -1 then dice = 6
      else if isInHomeStretch p then
        (let homeStretchPosition = position p - 100
         in homeStretchPosition + dice \<le> 6)
      else True)"

subsection \<open>movePiece (lines 105-145)\<close>

text \<open>
  The source mutates the piece in place and returns \<open>{ moved, captured }\<close>; \<open>captured\<close>
  is \<open>null\<close> on every path and no caller reads it. The model returns the piece after the
  call together with \<open>moved\<close>.
\<close>

definition movePiece :: "piece \<Rightarrow> int \<Rightarrow> color \<Rightarrow> piece \<times> bool" where
  "movePiece p dice col =
     (if position p = -1 \<and> dice = 6 then (p\<lparr>position := START_POSITIONS col\<rparr>, True)
      else if position p = -1 then (p, False)
      else if isInHomeStretch p then
        (let homeStretchPosition = position p - 100
         in if homeStretchPosition + dice \<le> 6
            then (p\<lparr>position := 100 + homeStretchPosition + dice\<rparr>, True)
            else (p, False))
      else
        (let newPosition = js_rem (position p + dice) BOARD_SIZE;
             homeStretchStart = HOME_STRETCH_START col
         in if position p \<le> homeStretchStart \<and> newPosition > homeStretchStart
            then
              (let stepsIntoHomeStretch = newPosition - homeStretchStart
               in if stepsIntoHomeStretch \<le> 6
                  then (p\<lparr>position := 100 + stepsIntoHomeStretch, isInHomeStretch := True\<rparr>, True)
                  else (p\<lparr>position := newPosition\<rparr>, True))
            else (p\<lparr>position := newPosition\<rparr>, True)))"

subsection \<open>checkCapture (lines 147-169)\<close>

text \<open>The inner loop over one colour's array: the first index whose piece is hit.\<close>

fun scanPieces :: "int \<Rightarrow> piece list \<Rightarrow> nat \<Rightarrow> nat option" where
  "scanPieces newPosition [] i = None"
| "scanPieces newPosition (otherPiece # rest) i =
     (if position otherPiece = newPosition \<and> \<not> isInHomeStretch otherPiece then Some i
      else scanPieces newPosition rest (Suc i))"

text \<open>The outer loop over \<open>Object.entries(gameState.pieces)\<close>, skipping the mover's colour.\<close>

fun scanColors :: "color \<Rightarrow> int \<Rightarrow> (color \<times> piece list) list \<Rightarrow> (color \<times> nat) option" where
  "scanColors col newPosition [] = None"
| "scanColors col newPosition ((otherColor, ps) # rest) =
     (if otherColor = col then scanColors col newPosition rest
      else (case scanPieces newPosition ps 0 of
              Some i \<Rightarrow> Some (otherColor, i)
            | None \<Rightarrow> scanColors col newPosition rest))"

text \<open>
  The source resets the hit piece in place and returns at once, so the loops are a search
  followed by one update. The parameter \<open>movedPiece\<close> is unused in the source as well.
\<close>

definition capturePiece :: "piece \<Rightarrow> piece" where
  "capturePiece otherPiece = otherPiece\<lparr>position := -1, isInHomeStretch := False\<rparr>"

definition checkCapture ::
    "room \<Rightarrow> piece \<Rightarrow> color \<Rightarrow> int \<Rightarrow> (color \<times> nat) option \<times> room" where
  "checkCapture gameState movedPiece col newPosition =
     (if newPosition \<in> set SAFE_POSITIONS then (None, gameState)
      else (case scanColors col newPosition (entries (pieces gameState)) of
              None \<Rightarrow> (None, gameState)
            | Some (otherColor, i) \<Rightarrow>
                (Some (otherColor, i),
                 gameState\<lparr>pieces :=
                   setPiecesOf (pieces gameState) otherColor
                     (list_update (piecesOf (pieces gameState) otherColor) i
                        (capturePiece (piecesOf (pieces gameState) otherColor ! i)))\<rparr>)))"

subsection \<open>getMovablePieces and hasWon (lines 171-181)\<close>

text \<open>The handlers read only the \<open>index\<close> of each movable entry.\<close>

definition getMovablePieces :: "room \<Rightarrow> color \<Rightarrow> int \<Rightarrow> nat list" where
  "getMovablePieces gameState col dice =
     map snd (filter (\<lambda>(p, index). canMovePiece p dice col)
       (zip (piecesOf (pieces gameState) col) [0 ..< length (piecesOf (pieces gameState) col)]))"

definition hasWon :: "room \<Rightarrow> color \<Rightarrow> bool" where
  "hasWon gameState col =
     list_all (\<lambda>p. isInHomeStretch p \<and> position p = 106) (piecesOf (pieces gameState) col)"

section \<open>Room manager and turn controller (the socket handlers, lines 183-420)\<close>

text \<open>
  The registry \<open>rooms\<close> is a \<open>Map\<close> from room code to room, iterated in insertion order:
  an association list. A handler mutates the room object it looked up; the model writes the
  changed room back under the same key, which keeps its place in the list.
\<close>

type_synonym rooms = "(string \<times> room) list"

text \<open>
  What a handler sends: \<open>socket.emit\<close> goes to the requesting socket only,
  \<open>io.to(roomCode).emit\<close> to every socket of the room. A payload's \<open>gameState\<close> is the
  room as it is when the event is emitted.
\<close>

datatype target = ToSocket sid | ToRoom string

datatype payload =
    RoomError string
  | GameError string
  | RoomCreated string room
  | JoinedRoom room
  | PlayerJoined player room
  | GameStarted room
  | DiceRolled int jsnum room "nat list" bool
  | TurnSwitched jsnum room
  | PieceMoved color int int int "(color \<times> nat) option" room bool bool
  | GameWon color string
  | PlayerLeft sid room

type_synonym event = "target \<times> payload"

text \<open>
  Reading a property of \<open>undefined\<close> throws a TypeError. No handler catches anything, so
  the exception leaves the handler; the model's result is then \<open>Inl TypeError\<close>.
\<close>

datatype error = TypeError

type_synonym outcome = "error + rooms \<times> event list"

text \<open>\<open>xs[i]\<close> for an integer \<open>i\<close>: \<open>undefined\<close> outside the array.\<close>

definition arrayGet :: "'a list \<Rightarrow> int \<Rightarrow> 'a option" where
  "arrayGet xs i = (if 0 \<le> i \<and> i < int (length xs) then Some (xs ! nat i) else None)"

text \<open>\<open>xs[n]\<close> for a JavaScript number \<open>n\<close>: \<open>undefined\<close> for NaN as well.\<close>

fun arrayGetNum :: "'a list \<Rightarrow> jsnum \<Rightarrow> 'a option" where
  "arrayGetNum xs (Num i) = arrayGet xs i"
| "arrayGetNum xs NaN = None"

text \<open>\<open>(room.currentPlayer + 1) % room.playerCount\<close>.\<close>

fun nextPlayer :: "jsnum \<Rightarrow> int \<Rightarrow> jsnum" where
  "nextPlayer (Num i) n = (if n = 0 then NaN else Num (js_rem (i + 1) n))"
| "nextPlayer NaN n = NaN"

subsection \<open>create-room (lines 187-207)\<close>

text \<open>
  The room code comes from \<open>Math.random\<close>; the model takes it as an input. The source's
  \<open>createGameState\<close> returns the object without \<open>roomCode\<close> and \<open>playerCount\<close>, which the
  handler adds when it spreads the object into the room; the record has all fields from the
  start. \<open>socket.join\<close> changes the transport's membership, not the registry.
\<close>

definition createGameState :: "string \<Rightarrow> int \<Rightarrow> room" where
  "createGameState code n =
     \<lparr>players = [], currentPlayer = Num 0, gameStarted = False, diceValue = 1,
      lastRoll = None, canRollAgain = False, pieces = initialPieces,
      roomCode = code, playerCount = n\<rparr>"

definition createRoom :: "sid \<Rightarrow> string \<Rightarrow> string \<Rightarrow> rooms \<Rightarrow> outcome" where
  "createRoom socketId code playerName rs =
     (let gameState = createGameState code 1;
          r = gameState\<lparr>players :=
                AList.update socketId \<lparr>name = playerName, color = Some Red, isHost = True\<rparr>
                  (players gameState)\<rparr>
      in Inr (AList.update code r rs, [(ToSocket socketId, RoomCreated code r)]))"

subsection \<open>join-room (lines 210-251)\<close>

definition colors :: "color list" where
  "colors = [Red, Green, Yellow, Blue]"

definition joinRoom :: "sid \<Rightarrow> string \<Rightarrow> string \<Rightarrow> rooms \<Rightarrow> outcome" where
  "joinRoom socketId code playerName rs =
     (case map_of rs code of
        None \<Rightarrow> Inr (rs, [(ToSocket socketId, RoomError ''Room not found'')])
      | Some r \<Rightarrow>
          if playerCount r \<ge> 4 then Inr (rs, [(ToSocket socketId, RoomError ''Room is full'')])
          else if gameStarted r then
            Inr (rs, [(ToSocket socketId, RoomError ''Game already started'')])
          else
            (let usedColors = map (\<lambda>(k, p). color p) (players r);
                 availableColor = find (\<lambda>c. Some c \<notin> set usedColors) colors;
                 newPlayer = \<lparr>name = playerName, color = availableColor, isHost = False\<rparr>;
                 r' = r\<lparr>players := AList.update socketId newPlayer (players r),
                        playerCount := playerCount r + 1\<rparr>
             in Inr (AList.update code r' rs,
                     [(ToSocket socketId, JoinedRoom r'),
                      (ToRoom code, PlayerJoined newPlayer r')])))"

subsection \<open>start-game (lines 254-271)\<close>

definition notAuthorized :: "sid \<Rightarrow> rooms \<Rightarrow> outcome" where
  "notAuthorized socketId rs =
     Inr (rs, [(ToSocket socketId, GameError ''Not authorized to start game'')])"

definition startGame :: "sid \<Rightarrow> string \<Rightarrow> rooms \<Rightarrow> outcome" where
  "startGame socketId code rs =
     (case map_of rs code of
        None \<Rightarrow> notAuthorized socketId rs
      | Some r \<Rightarrow>
          (case map_of (players r) socketId of
             None \<Rightarrow> notAuthorized socketId rs
           | Some p \<Rightarrow>
               if \<not> isHost p then notAuthorized socketId rs
               else if playerCount r < 2 then
                 Inr (rs, [(ToSocket socketId, GameError ''Need at least 2 players to start'')])
               else
                 (let r' = r\<lparr>gameStarted := True\<rparr>
                  in Inr (AList.update code r' rs, [(ToRoom code, GameStarted r')]))))"

subsection \<open>roll-dice (lines 274-319)\<close>

text \<open>
  The die comes from \<open>Math.random\<close>; the model takes the rolled value as an input.
  \<open>room.players[socket.id]\<close> is defined once the turn check has passed; with an
  \<open>undefined\<close> colour, \<open>gameState.pieces[color].map\<close> throws.
\<close>

definition rollDice :: "sid \<Rightarrow> string \<Rightarrow> int \<Rightarrow> rooms \<Rightarrow> outcome" where
  "rollDice socketId code dice rs =
     (case map_of rs code of
        None \<Rightarrow> Inr (rs, [])
      | Some r \<Rightarrow>
          if \<not> gameStarted r then Inr (rs, [])
          else
            (let playerIds = map fst (players r);
                 currentPlayerId = arrayGetNum playerIds (currentPlayer r)
             in if Some socketId \<noteq> currentPlayerId
                then Inr (rs, [(ToSocket socketId, GameError ''Not your turn'')])
                else
                  (let r1 = r\<lparr>diceValue := dice, lastRoll := Some dice\<rparr>
                   in case map_of (players r1) socketId of
                        None \<Rightarrow> Inl TypeError
                      | Some pl \<Rightarrow>
                          (case color pl of
                             None \<Rightarrow> Inl TypeError
                           | Some playerColor \<Rightarrow>
                               (let movablePieces = getMovablePieces r1 playerColor dice;
                                    r2 = r1\<lparr>canRollAgain := (dice = 6)\<rparr>;
                                    rolled = (ToRoom code,
                                      DiceRolled dice (currentPlayer r2) r2 movablePieces
                                        (canRollAgain r2))
                                in if movablePieces = [] \<and> dice \<noteq> 6
                                   then
                                     (let r3 = r2\<lparr>currentPlayer :=
                                                   nextPlayer (currentPlayer r2) (playerCount r2),
                                                 canRollAgain := False\<rparr>
                                      in Inr (AList.update code r3 rs,
                                              [rolled,
                                               (ToRoom code, TurnSwitched (currentPlayer r3) r3)]))
                                   else Inr (AList.update code r2 rs, [rolled]))))))"

subsection \<open>move-piece (lines 322-387)\<close>

text \<open>
  \<open>pieceIndex\<close> is whatever the client sent; the model covers the integers. With an
  \<open>undefined\<close> colour, \<open>room.pieces[playerColor][pieceIndex]\<close> throws; with an index outside
  the array, \<open>piece\<close> is \<open>undefined\<close> and \<open>canMovePiece\<close> throws on \<open>piece.position\<close>.
  \<open>movePiece\<close> mutates the piece inside the room. \<open>checkCapture\<close> never touches the
  mover's own colour, so \<open>piece.position\<close> read for the payload is the moved piece's.
\<close>

text \<open>Lines 345-386: the move itself, once \<open>canMovePiece\<close> has accepted the piece.\<close>

definition executeMove ::
    "sid \<Rightarrow> string \<Rightarrow> int \<Rightarrow> player \<Rightarrow> color \<Rightarrow> piece \<Rightarrow> room \<Rightarrow> rooms \<Rightarrow> outcome" where
  "executeMove socketId code pieceIndex pl playerColor pc r rs =
     (let oldPosition = position pc;
          (pc', moved) = movePiece pc (diceValue r) playerColor;
          r1 = r\<lparr>pieces :=
                 setPiecesOf (pieces r) playerColor
                   (list_update (piecesOf (pieces r) playerColor) (nat pieceIndex) pc')\<rparr>
      in if \<not> moved
         then Inr (AList.update code r1 rs,
                   [(ToSocket socketId, GameError ''Cannot move this piece'')])
         else
           (let (captured, r2) =
                  (if position pc' \<noteq> -1 \<and> \<not> isInHomeStretch pc'
                   then checkCapture r1 pc' playerColor (position pc')
                   else (None, r1));
                hasPlayerWon = hasWon r2 playerColor;
                anotherTurn = (lastRoll r2 = Some 6 \<or> captured \<noteq> None);
                r3 = (if \<not> anotherTurn \<or> hasPlayerWon
                      then r2\<lparr>currentPlayer := nextPlayer (currentPlayer r2) (playerCount r2),
                              canRollAgain := False\<rparr>
                      else r2)
            in Inr (AList.update code r3 rs,
                    (ToRoom code,
                     PieceMoved playerColor pieceIndex oldPosition (position pc') captured r3
                       hasPlayerWon anotherTurn)
                    # (if hasPlayerWon then [(ToRoom code, GameWon playerColor (name pl))]
                       else []))))"

text \<open>Lines 322-343: the guards.\<close>

definition movePieceHandler :: "sid \<Rightarrow> string \<Rightarrow> int \<Rightarrow> rooms \<Rightarrow> outcome" where
  "movePieceHandler socketId code pieceIndex rs =
     (case map_of rs code of
        None \<Rightarrow> Inr (rs, [])
      | Some r \<Rightarrow>
          if \<not> gameStarted r then Inr (rs, [])
          else
            (let playerIds = map fst (players r);
                 currentPlayerId = arrayGetNum playerIds (currentPlayer r)
             in if Some socketId \<noteq> currentPlayerId then Inr (rs, [])
                else
                  (case map_of (players r) socketId of
                     None \<Rightarrow> Inl TypeError
                   | Some pl \<Rightarrow>
                       (case color pl of
                          None \<Rightarrow> Inl TypeError
                        | Some playerColor \<Rightarrow>
                            (case arrayGet (piecesOf (pieces r) playerColor) pieceIndex of
                               None \<Rightarrow> Inl TypeError
                             | Some pc \<Rightarrow>
                                 if \<not> canMovePiece pc (diceValue r) playerColor
                                 then Inr (rs, [(ToSocket socketId, GameError ''Invalid move'')])
                                 else executeMove socketId code pieceIndex pl playerColor pc r
                                        rs)))))"

subsection \<open>disconnect (lines 390-419)\<close>

text \<open>
  The loop over \<open>rooms.entries()\<close> stops at the first room that holds the socket. The host
  check \<open>room.players[socket.id]?.isHost\<close> stands after \<open>delete room.players[socket.id]\<close>
  in the source, so the model looks the socket up in the players that remain.
\<close>

definition promoteFirst :: "room \<Rightarrow> room" where
  "promoteFirst r =
     (case map fst (players r) of
        [] \<Rightarrow> r
      | k # ks \<Rightarrow> r\<lparr>players := AList.map_entry k (\<lambda>p. p\<lparr>isHost := True\<rparr>) (players r)\<rparr>)"

definition leaveRoom :: "sid \<Rightarrow> room \<Rightarrow> room" where
  "leaveRoom socketId r =
     (let r1 = r\<lparr>players := AList.delete socketId (players r),
                 playerCount := playerCount r - 1\<rparr>
      in if playerCount r1 = 0 then r1
         else (case map_of (players r1) socketId of
                 None \<Rightarrow> r1
               | Some p \<Rightarrow> if isHost p then promoteFirst r1 else r1))"

fun disconnectLoop :: "sid \<Rightarrow> rooms \<Rightarrow> rooms \<times> event list" where
  "disconnectLoop socketId [] = ([], [])"
| "disconnectLoop socketId ((code, r) # rest) =
     (case map_of (players r) socketId of
        None \<Rightarrow>
          (let (rest', evs) = disconnectLoop socketId rest in ((code, r) # rest', evs))
      | Some p \<Rightarrow>
          (let r' = leaveRoom socketId r
           in if playerCount r' = 0 then (rest, [])
              else ((code, r') # rest, [(ToRoom code, PlayerLeft socketId r')])))"

definition disconnect :: "sid \<Rightarrow> rooms \<Rightarrow> outcome" where
  "disconnect socketId rs = Inr (disconnectLoop socketId rs)"

subsection \<open>Requests and runs of the server\<close>

datatype request =
    CreateRoom sid string string
  | JoinRoom sid string string
  | StartGame sid string
  | RollDice sid string int
  | MovePiece sid string int
  | Disconnect sid

fun handle :: "request \<Rightarrow> rooms \<Rightarrow> outcome" where
  "handle (CreateRoom s code playerName) rs = createRoom s code playerName rs"
| "handle (JoinRoom s code playerName) rs = joinRoom s code playerName rs"
| "handle (StartGame s code) rs = startGame s code rs"
| "handle (RollDice s code dice) rs = rollDice s code dice rs"
| "handle (MovePiece s code pieceIndex) rs = movePieceHandler s code pieceIndex rs"
| "handle (Disconnect s) rs = disconnect s rs"

text \<open>
  A sequence of requests handled one after the other, starting from the registry \<open>rs\<close>:
  the registry at the end and everything emitted on the way. A throw ends the run.
\<close>

fun run :: "request list \<Rightarrow> rooms \<Rightarrow> outcome" where
  "run [] rs = Inr (rs, [])"
| "run (q # qs) rs =
     (case handle q rs of
        Inl e \<Rightarrow> Inl e
      | Inr (rs', evs) \<Rightarrow>
          (case run qs rs' of
             Inl e \<Rightarrow> Inl e
           | Inr (rs'', evs') \<Rightarrow> Inr (rs'', evs @ evs')))"

definition roomAfter :: "request list \<Rightarrow> string \<Rightarrow> room option" where
  "roomAfter qs code = (case run qs [] of Inl e \<Rightarrow> None | Inr (rs, evs) \<Rightarrow> map_of rs code)"

definition eventsOf :: "request list \<Rightarrow> event list" where
  "eventsOf qs = (case run qs [] of Inl e \<Rightarrow> [] | Inr (rs, evs) \<Rightarrow> evs)"

section \<open>Notions used in the statements\<close>

subsection \<open>Where a piece is\<close>

definition atHome :: "piece \<Rightarrow> bool" where
  "atHome p = (position p = -1)"

definition inHomeStretchAt :: "piece \<Rightarrow> int \<Rightarrow> bool" where
  "inHomeStretchAt p i = (isInHomeStretch p \<and> 0 \<le> i \<and> position p = 100 + i)"

definition onMainTrack :: "piece \<Rightarrow> bool" where
  "onMainTrack p = (\<not> isInHomeStretch p \<and> 0 \<le> position p \<and> position p < BOARD_SIZE)"

subsection \<open>Capture: the pieces a landing can hit, and the order of the scan\<close>

definition hit :: "int \<Rightarrow> piece \<Rightarrow> bool" where
  "hit cell p = (position p = cell \<and> \<not> isInHomeStretch p)"

definition opposingHit :: "room \<Rightarrow> color \<Rightarrow> int \<Rightarrow> color \<Rightarrow> nat \<Rightarrow> bool" where
  "opposingHit gs col cell c i =
     (c \<noteq> col \<and> i < length (piecesOf (pieces gs) c) \<and> hit cell (piecesOf (pieces gs) c ! i))"

fun entryRank :: "color \<Rightarrow> nat" where
  "entryRank Red = 0"
| "entryRank Green = 1"
| "entryRank Yellow = 2"
| "entryRank Blue = 3"

definition scannedBefore :: "color \<Rightarrow> nat \<Rightarrow> color \<Rightarrow> nat \<Rightarrow> bool" where
  "scannedBefore c' j c i = (entryRank c' < entryRank c \<or> (c' = c \<and> j < i))"

text \<open>A room in which two green pieces stand on cell 5, which is not a safe cell.\<close>

definition captureExample :: room where
  "captureExample =
     (createGameState ''R'' 2)\<lparr>pieces := initialPieces\<lparr>green :=
        [\<lparr>position = 5, homeIndex = 0, isInHomeStretch = False\<rparr>,
         \<lparr>position = 5, homeIndex = 1, isInHomeStretch = False\<rparr>]\<rparr>\<rparr>"

subsection \<open>Crossing the stretch-entry boundary\<close>

text \<open>
  A move of \<open>d\<close> cells from a main-track cell passes the colour's boundary cell when the
  piece stands on or before the boundary and would end beyond it, counting the cells
  walked without wrapping back to 0.
\<close>

definition crossesBoundary :: "piece \<Rightarrow> int \<Rightarrow> color \<Rightarrow> bool" where
  "crossesBoundary p d col =
     (position p \<le> HOME_STRETCH_START col \<and> HOME_STRETCH_START col < position p + d)"

subsection \<open>Views of a room\<close>

definition turnInfo :: "room \<Rightarrow> jsnum \<times> int \<times> int option" where
  "turnInfo r = (currentPlayer r, playerCount r, lastRoll r)"

definition playerIds :: "room \<Rightarrow> sid list" where
  "playerIds r = map fst (players r)"

definition hostFlags :: "room \<Rightarrow> (sid \<times> bool) list" where
  "hostFlags r = map (\<lambda>(k, p). (k, isHost p)) (players r)"

definition playerColors :: "room \<Rightarrow> (sid \<times> color option) list" where
  "playerColors r = map (\<lambda>(k, p). (k, color p)) (players r)"

subsection \<open>The colour a joining player gets\<close>

text \<open>
  \<open>firstFree r c\<close>: \<open>c\<close> is the first colour of the palette order that no player of \<open>r\<close>
  has, or \<open>undefined\<close> when all four are taken. \<open>lexFirstUnused\<close> is the first unused
  colour in the lexicographic order of the names instead. \<open>joined\<close> is the room after a
  successful join.
\<close>

definition usedColor :: "room \<Rightarrow> color \<Rightarrow> bool" where
  "usedColor r c = (Some c \<in> set (map (\<lambda>(k, p). color p) (players r)))"

fun firstFree :: "room \<Rightarrow> color option \<Rightarrow> bool" where
  "firstFree r None = list_all (usedColor r) colors"
| "firstFree r (Some c) =
     (\<not> usedColor r c \<and> list_all (usedColor r) (takeWhile (\<lambda>c'. c' \<noteq> c) colors))"

definition joined :: "room \<Rightarrow> sid \<Rightarrow> string \<Rightarrow> color option \<Rightarrow> room" where
  "joined r s nm c =
     r\<lparr>players := AList.update s \<lparr>name = nm, color = c, isHost = False\<rparr> (players r),
       playerCount := playerCount r + 1\<rparr>"

definition lexFirstUnused :: "room \<Rightarrow> color option" where
  "lexFirstUnused r = find (\<lambda>c. \<not> usedColor r c) (sort_key colorName colors)"

subsection \<open>The die and the last roll\<close>

text \<open>
  move-piece moves by \<open>room.diceValue\<close> and decides the extra turn by \<open>room.lastRoll\<close>.
  A room is consistent when the two agree, or when nothing has been rolled yet and every
  piece is still at home.
\<close>

definition rollConsistent :: "room \<Rightarrow> bool" where
  "rollConsistent r =
     (if lastRoll r = None
      then diceValue r = 1 \<and> list_all (\<lambda>(c, ps). list_all atHome ps) (entries (pieces r))
      else lastRoll r = Some (diceValue r))"

definition registryConsistent :: "rooms \<Rightarrow> bool" where
  "registryConsistent rs = list_all (\<lambda>(code, r). rollConsistent r) rs"

subsection \<open>Rooms used as examples\<close>

text \<open>
  \<open>lobbyRoom\<close>: Alice has created room R. \<open>sixRolled\<close>: Alice and Bob play and Alice has
  rolled a 6; \<open>sixMoved\<close>: she has then moved her first piece out. \<open>soloRolled\<close>: Bob has
  left the started game, Alice's first piece stands on cell 1 and she has rolled a 3;
  \<open>soloMoved\<close>: she has then moved that piece.
\<close>

definition lobbyRoom :: room where
  "lobbyRoom =
     (createGameState ''R'' 1)\<lparr>players :=
        [(''A'', \<lparr>name = ''Alice'', color = Some Red, isHost = True\<rparr>)]\<rparr>"

definition soloRolled :: room where
  "soloRolled =
     (createGameState ''R'' 1)\<lparr>players :=
        [(''A'', \<lparr>name = ''Alice'', color = Some Red, isHost = True\<rparr>)],
       gameStarted := True, diceValue := 3, lastRoll := Some 3,
       pieces := initialPieces\<lparr>red :=
         [\<lparr>position = 1, homeIndex = 0, isInHomeStretch = False\<rparr>,
          newPiece 1, newPiece 2, newPiece 3]\<rparr>\<rparr>"

definition soloMoved :: room where
  "soloMoved = soloRolled\<lparr>pieces := initialPieces\<lparr>red :=
     [\<lparr>position = 4, homeIndex = 0, isInHomeStretch = False\<rparr>,
      newPiece 1, newPiece 2, newPiece 3]\<rparr>\<rparr>"

definition sixRolled :: room where
  "sixRolled =
     (createGameState ''R'' 2)\<lparr>players :=
        [(''A'', \<lparr>name = ''Alice'', color = Some Red, isHost = True\<rparr>),
         (''B'', \<lparr>name = ''Bob'', color = Some Green, isHost = False\<rparr>)],
       gameStarted := True, diceValue := 6, lastRoll := Some 6, canRollAgain := True\<rparr>"

definition sixMoved :: room where
  "sixMoved = sixRolled\<lparr>pieces := initialPieces\<lparr>red :=
     [\<lparr>position = 1, homeIndex = 0, isInHomeStretch = False\<rparr>, newPiece 1, newPiece 2, newPiece 3]\<rparr>\<rparr>"

section \<open>The rules engine: legality and execution of a move\<close>

lemma canMovePiece_atHome: "atHome p \<Longrightarrow> canMovePiece p d col = (d = 6)"
  by (simp add: atHome_def canMovePiece_def)

lemma canMovePiece_stretch: "inHomeStretchAt p i \<Longrightarrow> canMovePiece p d col = (i + d \<le> 6)"
  by (auto simp: inHomeStretchAt_def canMovePiece_def)

lemma canMovePiece_track: "onMainTrack p \<Longrightarrow> canMovePiece p d col"
  by (auto simp: onMainTrack_def canMovePiece_def)

text \<open>
  Claim C8. For every piece and every die value (so for 1 to 6): a piece at home can move
  iff the die shows 6; a piece in the home stretch at index \<open>i\<close> can move iff
  \<open>i + d \<le> 6\<close>, with no clamping and no wrap-around; a piece on the main track can
  always move.
\<close>

theorem canMovePiece_cases:
  "(atHome p \<longrightarrow> canMovePiece p d col = (d = 6)) \<and>
   (inHomeStretchAt p i \<longrightarrow> canMovePiece p d col = (i + d \<le> 6)) \<and>
   (onMainTrack p \<longrightarrow> canMovePiece p d col)"
  using canMovePiece_atHome canMovePiece_stretch canMovePiece_track by blast

theorem canMovePiece_cases_witness:
  "atHome (newPiece 0) \<and> canMovePiece (newPiece 0) 6 Red \<and> \<not> canMovePiece (newPiece 0) 5 Red \<and>
   inHomeStretchAt \<lparr>position = 104, homeIndex = 0, isInHomeStretch = True\<rparr> 4 \<and>
   canMovePiece \<lparr>position = 104, homeIndex = 0, isInHomeStretch = True\<rparr> 2 Red \<and>
   \<not> canMovePiece \<lparr>position = 104, homeIndex = 0, isInHomeStretch = True\<rparr> 3 Red \<and>
   onMainTrack \<lparr>position = 50, homeIndex = 0, isInHomeStretch = False\<rparr> \<and>
   canMovePiece \<lparr>position = 50, homeIndex = 0, isInHomeStretch = False\<rparr> 3 Red"
proof -
  have a: "atHome (newPiece 0)" by (simp add: atHome_def newPiece_def)
  have s: "inHomeStretchAt \<lparr>position = 104, homeIndex = 0, isInHomeStretch = True\<rparr> 4"
    by (simp add: inHomeStretchAt_def)
  have t: "onMainTrack \<lparr>position = 50, homeIndex = 0, isInHomeStretch = False\<rparr>"
    by (simp add: onMainTrack_def BOARD_SIZE_def)
  show ?thesis
    using a s t
      canMovePiece_cases [of "newPiece 0" 6 Red 0]
      canMovePiece_cases [of "newPiece 0" 5 Red 0]
      canMovePiece_cases [of "\<lparr>position = 104, homeIndex = 0, isInHomeStretch = True\<rparr>" 2 Red 4]
      canMovePiece_cases [of "\<lparr>position = 104, homeIndex = 0, isInHomeStretch = True\<rparr>" 3 Red 4]
      canMovePiece_cases [of "\<lparr>position = 50, homeIndex = 0, isInHomeStretch = False\<rparr>" 3 Red 0]
    by simp
qed

lemma movePiece_moved: "canMovePiece p d col \<Longrightarrow> snd (movePiece p d col)"
  by (auto simp: canMovePiece_def movePiece_def Let_def split: if_splits)

text \<open>
  Claim C9. For every piece, colour and die value (so for 1 to 6) that \<open>canMovePiece\<close>
  accepts, \<open>movePiece\<close> returns \<open>moved: true\<close>: its two \<open>moved: false\<close> returns cannot be
  reached then.
\<close>

theorem canMove_implies_moved: "canMovePiece p d col \<Longrightarrow> snd (movePiece p d col) = True"
  using movePiece_moved by simp

theorem canMove_implies_moved_witness:
  "canMovePiece (newPiece 0) 6 Red \<and> snd (movePiece (newPiece 0) 6 Red) = True"
proof -
  have c: "canMovePiece (newPiece 0) 6 Red" by (simp add: canMovePiece_def newPiece_def)
  from c canMove_implies_moved [OF c] show ?thesis by simp
qed

section \<open>Capture resolution\<close>

lemma scanPieces_None: "scanPieces cell ps k = None \<longleftrightarrow> (\<forall>p \<in> set ps. \<not> hit cell p)"
  by (induction ps arbitrary: k) (auto simp: hit_def)

lemma scanPieces_Some:
  "scanPieces cell ps k = Some i \<Longrightarrow>
     k \<le> i \<and> i - k < length ps \<and> hit cell (ps ! (i - k)) \<and> (\<forall>j < i - k. \<not> hit cell (ps ! j))"
proof (induction ps arbitrary: k)
  case Nil
  then show ?case by simp
next
  case (Cons p ps)
  show ?case
  proof (cases "position p = cell \<and> \<not> isInHomeStretch p")
    case True
    with Cons.prems show ?thesis by (simp add: hit_def)
  next
    case False
    with Cons.prems have rec: "scanPieces cell ps (Suc k) = Some i" by auto
    from Cons.IH [OF rec] have ih: "Suc k \<le> i" "i - Suc k < length ps"
      "hit cell (ps ! (i - Suc k))" "\<forall>j < i - Suc k. \<not> hit cell (ps ! j)" by auto
    from ih(1) have eq: "i - k = Suc (i - Suc k)" by simp
    have "\<not> hit cell p" using False by (simp add: hit_def)
    then have "\<forall>j < i - k. \<not> hit cell ((p # ps) ! j)"
      using ih(4) eq by (auto simp: nth_Cons' less_Suc_eq_0_disj)
    then show ?thesis using ih eq by simp
  qed
qed

lemma scanPieces_first:
  assumes "scanPieces cell ps 0 = Some i"
  shows "i < length ps" "hit cell (ps ! i)" "\<And>j. j < i \<Longrightarrow> \<not> hit cell (ps ! j)"
  using scanPieces_Some [OF assms] by auto

lemma scanColors_None:
  "scanColors col cell es = None \<longleftrightarrow>
     (\<forall>m < length es. fst (es ! m) \<noteq> col \<longrightarrow> scanPieces cell (snd (es ! m)) 0 = None)"
proof (induction es)
  case Nil
  then show ?case by simp
next
  case (Cons e es)
  obtain c ps where e: "e = (c, ps)" by (cases e)
  show ?case
    unfolding e using Cons.IH
    by (auto simp: nth_Cons' less_Suc_eq_0_disj split: option.splits)
qed

lemma scanColors_Some:
  "scanColors col cell es = Some (c, i) \<Longrightarrow>
     \<exists>m < length es. fst (es ! m) = c \<and> c \<noteq> col \<and> scanPieces cell (snd (es ! m)) 0 = Some i \<and>
       (\<forall>m' < m. fst (es ! m') \<noteq> col \<longrightarrow> scanPieces cell (snd (es ! m')) 0 = None)"
proof (induction es)
  case Nil
  then show ?case by simp
next
  case (Cons e es)
  obtain c0 ps where e: "e = (c0, ps)" by (cases e)
  show ?case
  proof (cases "c0 \<noteq> col \<and> scanPieces cell ps 0 \<noteq> None")
    case True
    with Cons.prems e have "c0 = c" "scanPieces cell ps 0 = Some i" by auto
    with True e show ?thesis by (intro exI [of _ 0]) simp
  next
    case False
    with Cons.prems e have "scanColors col cell es = Some (c, i)" by (auto split: if_splits)
    from Cons.IH [OF this] obtain m where m: "m < length es" "fst (es ! m) = c" "c \<noteq> col"
      "scanPieces cell (snd (es ! m)) 0 = Some i"
      "\<forall>m' < m. fst (es ! m') \<noteq> col \<longrightarrow> scanPieces cell (snd (es ! m')) 0 = None" by blast
    have "\<forall>m' < Suc m. fst ((e # es) ! m') \<noteq> col \<longrightarrow> scanPieces cell (snd ((e # es) ! m')) 0 = None"
      using m(5) False e by (auto simp: nth_Cons' less_Suc_eq_0_disj)
    with m show ?thesis by (intro exI [of _ "Suc m"]) simp
  qed
qed

lemma entries_nth: "entries ps ! entryRank c = (c, piecesOf ps c)"
  by (cases c) (simp_all add: entries_def)

lemma entries_rank:
  "m < length (entries ps) \<Longrightarrow> entryRank (fst (entries ps ! m)) = m"
  by (auto simp: entries_def less_Suc_eq_0_disj nth_Cons' numeral_eq_Suc)

lemma entries_snd:
  "m < length (entries ps) \<Longrightarrow> snd (entries ps ! m) = piecesOf ps (fst (entries ps ! m))"
  by (auto simp: entries_def less_Suc_eq_0_disj nth_Cons' numeral_eq_Suc)

lemma entryRank_inj: "entryRank a = entryRank b \<Longrightarrow> a = b"
  by (cases a; cases b) simp_all

lemma entryRank_less: "entryRank c < length (entries ps)"
  by (cases c) (simp_all add: entries_def)

lemma scanEntries_None:
  "scanColors col cell (entries (pieces gs)) = None \<longleftrightarrow> (\<forall>c i. \<not> opposingHit gs col cell c i)"
proof
  assume none: "scanColors col cell (entries (pieces gs)) = None"
  show "\<forall>c i. \<not> opposingHit gs col cell c i"
  proof (intro allI notI)
    fix c i assume h: "opposingHit gs col cell c i"
    have "scanPieces cell (snd (entries (pieces gs) ! entryRank c)) 0 = None"
      using none [unfolded scanColors_None, rule_format, of "entryRank c"] h
        entryRank_less [of c "pieces gs"]
      by (simp add: entries_nth opposingHit_def)
    then show False using h by (auto simp: entries_nth scanPieces_None opposingHit_def)
  qed
next
  assume no: "\<forall>c i. \<not> opposingHit gs col cell c i"
  show "scanColors col cell (entries (pieces gs)) = None"
    unfolding scanColors_None
  proof (intro allI impI)
    fix m assume m: "m < length (entries (pieces gs))" "fst (entries (pieces gs) ! m) \<noteq> col"
    show "scanPieces cell (snd (entries (pieces gs) ! m)) 0 = None"
      unfolding scanPieces_None entries_snd [OF m(1)]
      using no m(2) by (fastforce simp: opposingHit_def in_set_conv_nth)
  qed
qed

lemma scanEntries_Some:
  assumes "scanColors col cell (entries (pieces gs)) = Some (c, i)"
  shows "opposingHit gs col cell c i"
    and "\<And>c' j. opposingHit gs col cell c' j \<Longrightarrow> \<not> scannedBefore c' j c i"
proof -
  from scanColors_Some [OF assms] obtain m where m: "m < length (entries (pieces gs))"
    "fst (entries (pieces gs) ! m) = c" "c \<noteq> col"
    "scanPieces cell (snd (entries (pieces gs) ! m)) 0 = Some i"
    "\<forall>m' < m. fst (entries (pieces gs) ! m') \<noteq> col \<longrightarrow>
        scanPieces cell (snd (entries (pieces gs) ! m')) 0 = None" by blast
  have rank: "entryRank c = m" using entries_rank [OF m(1)] m(2) by simp
  have found: "scanPieces cell (piecesOf (pieces gs) c) 0 = Some i"
    using m(4) entries_snd [OF m(1)] m(2) by simp
  show "opposingHit gs col cell c i"
    using scanPieces_first [OF found] m(3) by (simp add: opposingHit_def)
  fix c' j assume h: "opposingHit gs col cell c' j"
  show "\<not> scannedBefore c' j c i"
  proof
    assume "scannedBefore c' j c i"
    then consider "entryRank c' < entryRank c" | "c' = c" "j < i"
      by (auto simp: scannedBefore_def)
    then show False
    proof cases
      case 1
      have "scanPieces cell (snd (entries (pieces gs) ! entryRank c')) 0 = None"
        using m(5) [rule_format, of "entryRank c'"] 1 rank h
        by (simp add: entries_nth opposingHit_def)
      then show False using h by (auto simp: entries_nth scanPieces_None opposingHit_def)
    next
      case 2
      with scanPieces_first(3) [OF found, of j] h show False by (simp add: opposingHit_def)
    qed
  qed
qed


lemma setPiecesOf_get:
  "piecesOf (setPiecesOf ps c xs) c' = (if c' = c then xs else piecesOf ps c')"
  by (cases c; cases c') simp_all

lemma checkCapture_frame:
  "snd (checkCapture gs mp col cell) = gs\<lparr>pieces := pieces (snd (checkCapture gs mp col cell))\<rparr>"
  by (simp add: checkCapture_def split: option.splits prod.splits)

text \<open>
  Claim C7. On a safe cell \<open>checkCapture\<close> captures nothing and changes nothing, whoever
  stands there. On any other cell: it returns \<open>null\<close> exactly when no piece of another
  colour stands on the cell outside its home stretch, and then changes nothing; otherwise
  it returns the first such piece in the order of the scan (colour, then slot), whose
  position becomes \<open>-1\<close> and whose home-stretch flag is false afterwards, while every other
  piece and every other field of the room is as before. So at most one piece is captured.
\<close>

theorem checkCapture_resolution:
  assumes "checkCapture gs mp col cell = (res, gs')"
  shows "(cell \<in> set SAFE_POSITIONS \<longrightarrow> res = None \<and> gs' = gs) \<and>
    (cell \<notin> set SAFE_POSITIONS \<longrightarrow>
       (case res of
          None \<Rightarrow> gs' = gs \<and> (\<forall>c i. \<not> opposingHit gs col cell c i)
        | Some (c, i) \<Rightarrow>
            opposingHit gs col cell c i \<and>
            (\<forall>c' j. opposingHit gs col cell c' j \<longrightarrow> \<not> scannedBefore c' j c i) \<and>
            position (piecesOf (pieces gs') c ! i) = -1 \<and>
            \<not> isInHomeStretch (piecesOf (pieces gs') c ! i) \<and>
            homeIndex (piecesOf (pieces gs') c ! i) = homeIndex (piecesOf (pieces gs) c ! i) \<and>
            (\<forall>c' j. (c', j) \<noteq> (c, i) \<longrightarrow>
                piecesOf (pieces gs') c' ! j = piecesOf (pieces gs) c' ! j) \<and>
            (\<forall>c'. length (piecesOf (pieces gs') c') = length (piecesOf (pieces gs) c')) \<and>
            gs'\<lparr>pieces := pieces gs\<rparr> = gs))"
proof -
  have safe: "res = None \<and> gs' = gs" if "cell \<in> set SAFE_POSITIONS"
    using assms that by (simp add: checkCapture_def)
  have unsafe: "case res of
          None \<Rightarrow> gs' = gs \<and> (\<forall>c i. \<not> opposingHit gs col cell c i)
        | Some (c, i) \<Rightarrow>
            opposingHit gs col cell c i \<and>
            (\<forall>c' j. opposingHit gs col cell c' j \<longrightarrow> \<not> scannedBefore c' j c i) \<and>
            position (piecesOf (pieces gs') c ! i) = -1 \<and>
            \<not> isInHomeStretch (piecesOf (pieces gs') c ! i) \<and>
            homeIndex (piecesOf (pieces gs') c ! i) = homeIndex (piecesOf (pieces gs) c ! i) \<and>
            (\<forall>c' j. (c', j) \<noteq> (c, i) \<longrightarrow>
                piecesOf (pieces gs') c' ! j = piecesOf (pieces gs) c' ! j) \<and>
            (\<forall>c'. length (piecesOf (pieces gs') c') = length (piecesOf (pieces gs) c')) \<and>
            gs'\<lparr>pieces := pieces gs\<rparr> = gs"
    if unsafe: "cell \<notin> set SAFE_POSITIONS"
  proof (cases "scanColors col cell (entries (pieces gs))")
    case None
    with assms unsafe have "res = None" "gs' = gs" by (simp_all add: checkCapture_def)
    with None show ?thesis by (simp add: scanEntries_None)
  next
    case (Some ci)
    obtain c i where ci: "ci = (c, i)" by (cases ci)
    let ?old = "piecesOf (pieces gs) c"
    from assms unsafe Some ci have res: "res = Some (c, i)"
      and gs': "gs' = gs\<lparr>pieces := setPiecesOf (pieces gs) c (?old[i := capturePiece (?old ! i)])\<rparr>"
      by (auto simp: checkCapture_def)
    have h: "opposingHit gs col cell c i"
      using scanEntries_Some(1) [of col cell gs c i] Some ci by simp
    have first: "\<forall>c' j. opposingHit gs col cell c' j \<longrightarrow> \<not> scannedBefore c' j c i"
      using scanEntries_Some(2) [of col cell gs c i] Some ci by blast
    from h have len: "i < length ?old" by (simp add: opposingHit_def)
    have new: "piecesOf (pieces gs') c' = (if c' = c then ?old[i := capturePiece (?old ! i)]
        else piecesOf (pieces gs) c')" for c'
      by (simp add: gs' setPiecesOf_get)
    have others: "\<forall>c' j. (c', j) \<noteq> (c, i) \<longrightarrow>
        piecesOf (pieces gs') c' ! j = piecesOf (pieces gs) c' ! j"
      by (auto simp: new)
    have lens: "\<forall>c'. length (piecesOf (pieces gs') c') = length (piecesOf (pieces gs) c')"
      by (simp add: new)
    have frame: "gs'\<lparr>pieces := pieces gs\<rparr> = gs" by (simp add: gs')
    show ?thesis
      using h first others lens frame len by (simp add: res new capturePiece_def)
  qed
  from safe unsafe show ?thesis by blast
qed

theorem checkCapture_resolution_witness:
  "5 \<notin> set SAFE_POSITIONS \<and>
   fst (checkCapture captureExample (newPiece 0) Red 5) = Some (Green, 0) \<and>
   opposingHit captureExample Red 5 Green 0 \<and>
   position (piecesOf (pieces (snd (checkCapture captureExample (newPiece 0) Red 5))) Green ! 0) = -1 \<and>
   piecesOf (pieces (snd (checkCapture captureExample (newPiece 0) Red 5))) Green ! 1
     = piecesOf (pieces captureExample) Green ! 1"
proof -
  have safe: "5 \<notin> set SAFE_POSITIONS" by (simp add: SAFE_POSITIONS_def)
  have res: "fst (checkCapture captureExample (newPiece 0) Red 5) = Some (Green, 0)"
    by (simp add: checkCapture_def captureExample_def SAFE_POSITIONS_def entries_def
        createGameState_def initialPieces_def newPiece_def)
  have "checkCapture captureExample (newPiece 0) Red 5
      = (Some (Green, 0), snd (checkCapture captureExample (newPiece 0) Red 5))"
    using res by (simp add: prod_eq_iff)
  note cap = checkCapture_resolution [OF this]
  from cap safe have hit: "opposingHit captureExample Red 5 Green 0"
    and home: "position (piecesOf (pieces (snd (checkCapture captureExample (newPiece 0) Red 5)))
        Green ! 0) = -1"
    and others: "\<forall>c' j. (c', j) \<noteq> (Green, 0) \<longrightarrow>
        piecesOf (pieces (snd (checkCapture captureExample (newPiece 0) Red 5))) c' ! j
          = piecesOf (pieces captureExample) c' ! j"
    by simp_all
  from others [rule_format, of Green 1] safe res hit home show ?thesis by simp
qed

section \<open>Evaluating the handlers on concrete requests\<close>

lemmas eval_defs = createRoom_def joinRoom_def startGame_def rollDice_def movePieceHandler_def
  executeMove_def disconnect_def leaveRoom_def createGameState_def colors_def roomAfter_def
  eventsOf_def notAuthorized_def arrayGet_def getMovablePieces_def canMovePiece_def movePiece_def
  checkCapture_def hasWon_def initialPieces_def newPiece_def promoteFirst_def js_rem_def
  BOARD_SIZE_def SAFE_POSITIONS_def entries_def Let_def

section \<open>Requests the handlers ignore\<close>

text \<open>
  Claim C10. A roll-dice or move-piece request whose room code names no room, or whose
  room has not started, leaves the registry as it is and emits nothing, not even an error
  to the requester.
\<close>

theorem ignored_without_started_room:
  assumes "map_of rs code = None \<or> (\<exists>r. map_of rs code = Some r \<and> \<not> gameStarted r)"
  shows "rollDice s code d rs = Inr (rs, []) \<and> movePieceHandler s code idx rs = Inr (rs, [])"
  using assms by (auto simp: rollDice_def movePieceHandler_def)

theorem ignored_without_started_room_witness:
  "rollDice ''A'' ''R'' 4 [] = Inr ([], []) \<and> movePieceHandler ''A'' ''R'' 0 [] = Inr ([], []) \<and>
   \<not> gameStarted lobbyRoom \<and>
   rollDice ''A'' ''R'' 4 [(''R'', lobbyRoom)] = Inr ([(''R'', lobbyRoom)], []) \<and>
   movePieceHandler ''A'' ''R'' 0 [(''R'', lobbyRoom)] = Inr ([(''R'', lobbyRoom)], [])"
proof -
  have none: "map_of ([] :: rooms) ''R'' = None \<or>
      (\<exists>r. map_of ([] :: rooms) ''R'' = Some r \<and> \<not> gameStarted r)" by simp
  have ns: "\<not> gameStarted lobbyRoom" by (simp add: lobbyRoom_def createGameState_def)
  then have lobby: "map_of [(''R'', lobbyRoom)] ''R'' = None \<or>
      (\<exists>r. map_of [(''R'', lobbyRoom)] ''R'' = Some r \<and> \<not> gameStarted r)" by simp
  from ignored_without_started_room [OF none, of "''A''" 4 0]
    ignored_without_started_room [OF lobby, of "''A''" 4 0] ns
  show ?thesis by simp
qed

section \<open>Turn order after a move\<close>

lemma checkCapture_keeps:
  "lastRoll (snd (checkCapture gs mp col cell)) = lastRoll gs"
  "playerCount (snd (checkCapture gs mp col cell)) = playerCount gs"
  "currentPlayer (snd (checkCapture gs mp col cell)) = currentPlayer gs"
  "players (snd (checkCapture gs mp col cell)) = players gs"
  "diceValue (snd (checkCapture gs mp col cell)) = diceValue gs"
  by (simp_all add: checkCapture_def split: option.splits prod.splits)

lemma js_rem_succ_neq:
  assumes "2 \<le> n"
  shows "js_rem (i + 1) n \<noteq> i"
proof
  assume eq: "js_rem (i + 1) n = i"
  consider "0 < i + 1" | "i + 1 = 0" | "i + 1 < 0" by linarith
  then show False
  proof cases
    case 1
    with eq assms have m: "(i + 1) mod n = i" by (simp add: js_rem_def)
    have "i < n" using m pos_mod_bound [of n "i + 1"] assms by linarith
    then consider "i + 1 < n" | "i + 1 = n" by linarith
    then show False
    proof cases
      case 1
      with \<open>0 < i + 1\<close> have "(i + 1) mod n = i + 1" by simp
      with m show False by simp
    next
      case 2
      then have "(i + 1) mod n = 0" by simp
      with m 2 assms show False by simp
    qed
  next
    case 2
    with eq show False by (simp add: js_rem_def)
  next
    case 3
    with eq assms have m: "(- (i + 1)) mod n = - i" by (simp add: js_rem_def)
    have "(- (i + 1)) mod n \<le> - (i + 1)" using 3 by (intro zmod_le_nonneg_dividend) simp
    with m show False by simp
  qed
qed

lemma nextPlayer_moves: "2 \<le> n \<Longrightarrow> nextPlayer (Num i) n \<noteq> Num i"
  using js_rem_succ_neq [of n i] by simp

lemma arrayGetNum_Some: "arrayGetNum xs cp = Some x \<Longrightarrow> \<exists>i. cp = Num i"
  by (cases cp) simp_all

lemma executeMove_result:
  assumes can: "canMovePiece pc (diceValue r) col"
  shows "\<exists>cap snap won.
           executeMove s code idx pl col pc r rs =
             Inr (AList.update code snap rs,
                  (ToRoom code,
                   PieceMoved col idx (position pc) (position (fst (movePiece pc (diceValue r) col)))
                     cap snap won (lastRoll r = Some 6 \<or> cap \<noteq> None))
                  # (if won then [(ToRoom code, GameWon col (name pl))] else [])) \<and>
           won = hasWon snap col \<and>
           playerCount snap = playerCount r \<and>
           players snap = players r \<and>
           lastRoll snap = lastRoll r \<and>
           diceValue snap = diceValue r \<and>
           currentPlayer snap =
             (if (lastRoll r = Some 6 \<or> cap \<noteq> None) \<and> \<not> won then currentPlayer r
              else nextPlayer (currentPlayer r) (playerCount r))"
proof -
  obtain pc' where mv: "movePiece pc (diceValue r) col = (pc', True)"
    using movePiece_moved [OF can] by (cases "movePiece pc (diceValue r) col") auto
  define r1 where "r1 = r\<lparr>pieces := setPiecesOf (pieces r) col
      (list_update (piecesOf (pieces r) col) (nat idx) pc')\<rparr>"
  define cc where "cc = (if position pc' \<noteq> -1 \<and> \<not> isInHomeStretch pc'
      then checkCapture r1 pc' col (position pc') else (None, r1))"
  have keep: "lastRoll (snd cc) = lastRoll r" "playerCount (snd cc) = playerCount r"
    "currentPlayer (snd cc) = currentPlayer r" "players (snd cc) = players r"
    "diceValue (snd cc) = diceValue r"
    by (simp_all add: cc_def r1_def checkCapture_keeps)
  define won where "won = hasWon (snd cc) col"
  define another where "another = (lastRoll (snd cc) = Some 6 \<or> fst cc \<noteq> None)"
  define r3 where "r3 = (if \<not> another \<or> won
      then (snd cc)\<lparr>currentPlayer := nextPlayer (currentPlayer (snd cc)) (playerCount (snd cc)),
                    canRollAgain := False\<rparr>
      else snd cc)"
  have ex: "executeMove s code idx pl col pc r rs =
      Inr (AList.update code r3 rs,
           (ToRoom code, PieceMoved col idx (position pc) (position pc') (fst cc) r3 won another)
           # (if won then [(ToRoom code, GameWon col (name pl))] else []))"
    unfolding executeMove_def Let_def mv r3_def another_def won_def cc_def r1_def
    by (simp add: split_beta)
  have w: "won = hasWon r3 col" by (simp add: won_def r3_def hasWon_def)
  have pcnt: "playerCount r3 = playerCount r" by (simp add: r3_def keep)
  have pls: "players r3 = players r" "lastRoll r3 = lastRoll r" "diceValue r3 = diceValue r"
    by (simp_all add: r3_def keep)
  have cur: "currentPlayer r3 = (if another \<and> \<not> won then currentPlayer r
      else nextPlayer (currentPlayer r) (playerCount r))"
    by (auto simp: r3_def keep)
  have an: "another = (lastRoll r = Some 6 \<or> fst cc \<noteq> None)" by (simp add: another_def keep)
  show ?thesis
    using ex w pcnt pls cur an mv by (intro exI [of _ "fst cc"] exI [of _ r3] exI [of _ won]) simp
qed

lemma sixRolled_reachable:
  "roomAfter [CreateRoom ''A'' ''R'' ''Alice'', JoinRoom ''B'' ''R'' ''Bob'', StartGame ''A'' ''R'',
      RollDice ''A'' ''R'' 6] ''R'' = Some sixRolled"
  by (simp add: eval_defs sixRolled_def)

text \<open>
  Claim C5, as the code has it. Whenever move-piece executes a move (it emits piece-moved),
  let \<open>another\<close> be "the last roll was 6 or the move captured a piece" and \<open>won\<close> the result
  of \<open>hasWon\<close>. Then \<open>currentPlayer\<close> is left as it was if \<open>another\<close> holds and \<open>won\<close> does
  not, and is set to \<open>(currentPlayer + 1) % playerCount\<close> otherwise. With a player count of
  two or more, \<open>currentPlayer\<close> is therefore unchanged if and only if \<open>another\<close> holds and
  \<open>won\<close> does not.
\<close>

theorem turn_after_move:
  assumes rm: "map_of rs code = Some r"
      and res: "movePieceHandler s code idx rs = Inr (rs', evs)"
      and ev: "(ToRoom code, PieceMoved col idx' old new cap snap won another) \<in> set evs"
  shows "map_of rs' code = Some snap \<and>
         playerCount snap = playerCount r \<and>
         won = hasWon snap col \<and>
         another = (lastRoll r = Some 6 \<or> cap \<noteq> None) \<and>
         currentPlayer snap =
           (if another \<and> \<not> won then currentPlayer r
            else nextPlayer (currentPlayer r) (playerCount r)) \<and>
         (2 \<le> playerCount r \<longrightarrow> (currentPlayer snap = currentPlayer r) = (another \<and> \<not> won))"
proof -
  from rm res ev obtain pl c pc where turn: "arrayGetNum (map fst (players r)) (currentPlayer r) = Some s"
    and can: "canMovePiece pc (diceValue r) c"
    and ex: "executeMove s code idx pl c pc r rs = Inr (rs', evs)"
    by (auto simp: movePieceHandler_def Let_def split: if_splits option.splits)
  from executeMove_result [OF can, of s code idx pl rs] ex
  obtain cap0 snap0 won0 where
    rs': "rs' = AList.update code snap0 rs"
    and evs: "evs = (ToRoom code,
        PieceMoved c idx (position pc) (position (fst (movePiece pc (diceValue r) c)))
          cap0 snap0 won0 (lastRoll r = Some 6 \<or> cap0 \<noteq> None))
        # (if won0 then [(ToRoom code, GameWon c (name pl))] else [])"
    and w: "won0 = hasWon snap0 c"
    and cnt: "playerCount snap0 = playerCount r"
    and cur: "currentPlayer snap0 =
        (if (lastRoll r = Some 6 \<or> cap0 \<noteq> None) \<and> \<not> won0 then currentPlayer r
         else nextPlayer (currentPlayer r) (playerCount r))"
    by auto
  from ev evs have same: "col = c" "cap = cap0" "snap = snap0" "won = won0"
    "another = (lastRoll r = Some 6 \<or> cap0 \<noteq> None)"
    by (auto split: if_splits)
  obtain i where i: "currentPlayer r = Num i" using arrayGetNum_Some [OF turn] by blast
  have iff: "(currentPlayer snap = currentPlayer r) = (another \<and> \<not> won)" if "2 \<le> playerCount r"
    using cur same i nextPlayer_moves [OF that, of i] by auto
  show ?thesis
    using rs' w cnt cur same iff by (simp add: update_conv')
qed

theorem turn_after_move_witness:
  "movePieceHandler ''A'' ''R'' 0 [(''R'', sixRolled)] =
     Inr ([(''R'', sixMoved)], [(ToRoom ''R'', PieceMoved Red 0 (-1) 1 None sixMoved False True)]) \<and>
   2 \<le> playerCount sixRolled \<and>
   currentPlayer sixMoved = currentPlayer sixRolled \<and>
   lastRoll sixRolled = Some 6"
proof -
  have rm: "map_of [(''R'', sixRolled)] ''R'' = Some sixRolled" by simp
  have res: "movePieceHandler ''A'' ''R'' 0 [(''R'', sixRolled)] =
     Inr ([(''R'', sixMoved)], [(ToRoom ''R'', PieceMoved Red 0 (-1) 1 None sixMoved False True)])"
    by (simp add: eval_defs sixRolled_def sixMoved_def)
  have ev: "(ToRoom ''R'', PieceMoved Red 0 (-1) 1 None sixMoved False True)
      \<in> set [(ToRoom ''R'', PieceMoved Red 0 (-1) 1 None sixMoved False True)]" by simp
  have two: "2 \<le> playerCount sixRolled" by (simp add: sixRolled_def createGameState_def)
  from turn_after_move [OF rm res ev] two res show ?thesis by simp
qed

text \<open>
  The claim without the proviso on the player count fails: when one player is left,
  \<open>(0 + 1) % 1 = 0\<close>, so \<open>currentPlayer\<close> is unchanged after a move with a roll of 3, no
  capture and no win. The room is reached by play in which Bob leaves after the start.
\<close>

theorem lone_player_keeps_turn:
  "roomAfter [CreateRoom ''A'' ''R'' ''Alice'', JoinRoom ''B'' ''R'' ''Bob'', StartGame ''A'' ''R'',
      Disconnect ''B'', RollDice ''A'' ''R'' 6, MovePiece ''A'' ''R'' 0, RollDice ''A'' ''R'' 3] ''R''
     = Some soloRolled \<and>
   movePieceHandler ''A'' ''R'' 0 [(''R'', soloRolled)] =
     Inr ([(''R'', soloMoved)], [(ToRoom ''R'', PieceMoved Red 0 1 4 None soloMoved False False)]) \<and>
   lastRoll soloRolled = Some 3 \<and>
   currentPlayer soloMoved = currentPlayer soloRolled"
  by (simp add: eval_defs soloRolled_def soloMoved_def)

section \<open>The die an executed move is made with\<close>

text \<open>
  Every handler keeps the rooms of the registry consistent, so in every registry reached
  from the empty one a move is only ever executed with the value that was last rolled.
\<close>

lemma registry_lookup:
  "registryConsistent rs \<Longrightarrow> map_of rs code = Some r \<Longrightarrow> rollConsistent r"
  by (auto simp: registryConsistent_def list_all_iff dest: map_of_SomeD)

lemma registry_update:
  "registryConsistent rs \<Longrightarrow> rollConsistent r \<Longrightarrow> registryConsistent (AList.update code r rs)"
  unfolding registryConsistent_def by (induction rs) auto

lemma rollConsistent_cong:
  "lastRoll r' = lastRoll r \<Longrightarrow> diceValue r' = diceValue r \<Longrightarrow> pieces r' = pieces r \<Longrightarrow>
     rollConsistent r' = rollConsistent r"
  by (simp add: rollConsistent_def)

lemma rollConsistent_rolled:
  "lastRoll r = Some (diceValue r) \<Longrightarrow> rollConsistent r"
  by (simp add: rollConsistent_def)

lemma fresh_room_consistent: "rollConsistent (createGameState code n)"
  by (simp add: rollConsistent_def createGameState_def initialPieces_def entries_def atHome_def
      newPiece_def)

lemma createRoom_consistent:
  "registryConsistent rs \<Longrightarrow> createRoom s code nm rs = Inr (rs', evs) \<Longrightarrow> registryConsistent rs'"
  using fresh_room_consistent [of code 1]
  by (auto simp: createRoom_def Let_def rollConsistent_def intro!: registry_update)

lemma joinRoom_consistent:
  "registryConsistent rs \<Longrightarrow> joinRoom s code nm rs = Inr (rs', evs) \<Longrightarrow> registryConsistent rs'"
  by (auto simp: joinRoom_def Let_def rollConsistent_def split: option.splits if_splits
      intro!: registry_update dest: registry_lookup)

lemma startGame_consistent:
  "registryConsistent rs \<Longrightarrow> startGame s code rs = Inr (rs', evs) \<Longrightarrow> registryConsistent rs'"
  by (auto simp: startGame_def notAuthorized_def Let_def rollConsistent_def
      split: option.splits if_splits intro!: registry_update dest: registry_lookup)

lemma rollDice_consistent:
  "registryConsistent rs \<Longrightarrow> rollDice s code d rs = Inr (rs', evs) \<Longrightarrow> registryConsistent rs'"
  by (auto simp: rollDice_def Let_def rollConsistent_def
      split: option.splits if_splits intro!: registry_update)

lemma atHome_piece_needs_six:
  assumes "rollConsistent r" "arrayGet (piecesOf (pieces r) c) idx = Some pc"
    "canMovePiece pc (diceValue r) c"
  shows "lastRoll r = Some (diceValue r)"
proof (rule ccontr)
  assume "lastRoll r \<noteq> Some (diceValue r)"
  with assms(1) have one: "diceValue r = 1"
    and home: "list_all (\<lambda>(c, ps). list_all atHome ps) (entries (pieces r))"
    by (auto simp: rollConsistent_def split: if_splits)
  from home have "list_all atHome (piecesOf (pieces r) c)"
    by (cases c) (simp_all add: entries_def)
  with assms(2) have "atHome pc"
    by (auto simp: arrayGet_def list_all_length split: if_splits)
  with assms(3) one show False by (simp add: atHome_def canMovePiece_def)
qed


lemma movePiece_consistent:
  assumes ok: "registryConsistent rs" and res: "movePieceHandler s code idx rs = Inr (rs', evs)"
  shows "registryConsistent rs'"
proof (cases "\<exists>r pl c pc. map_of rs code = Some r \<and>
    arrayGet (piecesOf (pieces r) c) idx = Some pc \<and> canMovePiece pc (diceValue r) c \<and>
    executeMove s code idx pl c pc r rs = Inr (rs', evs)")
  case True
  then obtain r pl c pc where rm: "map_of rs code = Some r"
    and pc: "arrayGet (piecesOf (pieces r) c) idx = Some pc"
    and can: "canMovePiece pc (diceValue r) c"
    and ex: "executeMove s code idx pl c pc r rs = Inr (rs', evs)" by blast
  have rolled: "lastRoll r = Some (diceValue r)"
    using atHome_piece_needs_six [OF registry_lookup [OF ok rm] pc can] .
  from executeMove_result [OF can, of s code idx pl rs] ex obtain snap where
    rs': "rs' = AList.update code snap rs" and "lastRoll snap = lastRoll r"
    "diceValue snap = diceValue r" by auto
  with rolled have "rollConsistent snap" by (simp add: rollConsistent_rolled)
  with ok rs' show ?thesis by (simp add: registry_update)
next
  case False
  with res have "rs' = rs"
    by (auto simp: movePieceHandler_def Let_def split: if_splits option.splits)
  with ok show ?thesis by simp
qed

lemma leaveRoom_consistent: "rollConsistent (leaveRoom s r) = rollConsistent r"
  by (rule rollConsistent_cong) (simp_all add: leaveRoom_def Let_def delete_conv)

lemma disconnectLoop_consistent:
  "registryConsistent rs \<Longrightarrow> registryConsistent (fst (disconnectLoop s rs))"
proof (induction rs)
  case Nil
  then show ?case by simp
next
  case (Cons e rs)
  obtain code r where e: "e = (code, r)" by (cases e)
  from Cons.prems e have r: "rollConsistent r" and rest: "registryConsistent rs"
    by (simp_all add: registryConsistent_def)
  show ?case
  proof (cases "map_of (players r) s")
    case None
    with Cons.IH [OF rest] r e show ?thesis
      by (simp add: registryConsistent_def split_beta)
  next
    case (Some p)
    with r rest e show ?thesis
      by (simp add: registryConsistent_def Let_def leaveRoom_consistent)
  qed
qed

lemma handle_consistent:
  "registryConsistent rs \<Longrightarrow> handle q rs = Inr (rs', evs) \<Longrightarrow> registryConsistent rs'"
proof (cases q)
  case (Disconnect s)
  assume "registryConsistent rs" "handle q rs = Inr (rs', evs)"
  with Disconnect disconnectLoop_consistent [of rs s] show ?thesis
    by (auto simp: disconnect_def)
qed (auto intro: createRoom_consistent joinRoom_consistent startGame_consistent
      rollDice_consistent movePiece_consistent)

lemma run_consistent:
  "registryConsistent rs \<Longrightarrow> run qs rs = Inr (rs', evs) \<Longrightarrow> registryConsistent rs'"
proof (induction qs arbitrary: rs evs)
  case Nil
  then show ?case by simp
next
  case (Cons q qs)
  from Cons.prems(2) obtain rs1 evs1 evs2 where h: "handle q rs = Inr (rs1, evs1)"
    and r: "run qs rs1 = Inr (rs', evs2)"
    by (auto split: sum.splits prod.splits)
  from Cons.IH [OF handle_consistent [OF Cons.prems(1) h] r] show ?case .
qed

lemma executed_move_uses_last_roll:
  assumes "run qs [] = Inr (rs, evs0)" "map_of rs code = Some r"
    "movePieceHandler s code idx rs = Inr (rs', evs)"
    "(ToRoom code, PieceMoved col idx' old new cap snap won another) \<in> set evs"
  shows "lastRoll r = Some (diceValue r)"
proof -
  have "registryConsistent rs"
    using run_consistent [OF _ assms(1)] by (simp add: registryConsistent_def)
  then have r: "rollConsistent r" using assms(2) by (rule registry_lookup)
  from assms(2-4) obtain c pc where "arrayGet (piecesOf (pieces r) c) idx = Some pc"
    "canMovePiece pc (diceValue r) c"
    by (auto simp: movePieceHandler_def Let_def split: if_splits option.splits)
  with r show ?thesis by (rule atHome_piece_needs_six)
qed

lemma nextPlayer_in_range:
  assumes "0 \<le> i" "0 < n"
  shows "\<exists>j. nextPlayer (Num i) n = Num j \<and> 0 \<le> j \<and> j < n"
proof -
  from assms have "js_rem (i + 1) n = (i + 1) mod n" by (simp add: js_rem_def)
  with assms show ?thesis by simp
qed

section \<open>Joining a room\<close>

lemma sorted_names: "sort_key colorName colors = [Blue, Green, Red, Yellow]"
  by (simp add: colors_def)

lemma find_firstFree: "firstFree r (find (\<lambda>c. Some c \<notin> set (map (\<lambda>(k, p). color p) (players r))) colors)"
  by (simp add: colors_def usedColor_def)

lemma firstFree_iff: "firstFree r a = (a = find (\<lambda>c. \<not> usedColor r c) colors)"
proof (cases a)
  case None
  then show ?thesis by (auto simp: colors_def)
next
  case (Some c)
  then show ?thesis by (cases c) (auto simp: colors_def)
qed

text \<open>
  Claim C6, as the code has it. join-room answers "Room not found" when the code names no
  room; otherwise "Room is full" when the room's player count is 4 or more; otherwise
  "Game already started" when play has begun; otherwise it succeeds, and the joining player
  gets the first colour in the palette order red, green, yellow, blue that no player of
  the room has.
\<close>

theorem joinRoom_outcomes:
  "(map_of rs code = None \<longrightarrow>
      joinRoom s code nm rs = Inr (rs, [(ToSocket s, RoomError ''Room not found'')])) \<and>
   (\<forall>r. map_of rs code = Some r \<longrightarrow>
      (if 4 \<le> playerCount r
       then joinRoom s code nm rs = Inr (rs, [(ToSocket s, RoomError ''Room is full'')])
       else if gameStarted r
       then joinRoom s code nm rs = Inr (rs, [(ToSocket s, RoomError ''Game already started'')])
       else \<exists>c. firstFree r c \<and>
              joinRoom s code nm rs =
                Inr (AList.update code (joined r s nm c) rs,
                     [(ToSocket s, JoinedRoom (joined r s nm c)),
                      (ToRoom code,
                       PlayerJoined \<lparr>name = nm, color = c, isHost = False\<rparr> (joined r s nm c))]) \<and>
              map_of (players (joined r s nm c)) s = Some \<lparr>name = nm, color = c, isHost = False\<rparr>))"
proof (intro conjI allI impI)
  assume "map_of rs code = None"
  then show "joinRoom s code nm rs = Inr (rs, [(ToSocket s, RoomError ''Room not found'')])"
    by (simp add: joinRoom_def)
next
  fix r assume rm: "map_of rs code = Some r"
  let ?c = "find (\<lambda>c. Some c \<notin> set (map (\<lambda>(k, p). color p) (players r))) colors"
  have ok: "joinRoom s code nm rs =
      Inr (AList.update code (joined r s nm ?c) rs,
           [(ToSocket s, JoinedRoom (joined r s nm ?c)),
            (ToRoom code, PlayerJoined \<lparr>name = nm, color = ?c, isHost = False\<rparr> (joined r s nm ?c))])"
    if "\<not> 4 \<le> playerCount r" "\<not> gameStarted r"
    using rm that by (simp add: joinRoom_def joined_def Let_def)
  have ent: "map_of (players (joined r s nm ?c)) s = Some \<lparr>name = nm, color = ?c, isHost = False\<rparr>"
    by (simp add: joined_def update_conv')
  show "if 4 \<le> playerCount r
       then joinRoom s code nm rs = Inr (rs, [(ToSocket s, RoomError ''Room is full'')])
       else if gameStarted r
       then joinRoom s code nm rs = Inr (rs, [(ToSocket s, RoomError ''Game already started'')])
       else \<exists>c. firstFree r c \<and>
              joinRoom s code nm rs =
                Inr (AList.update code (joined r s nm c) rs,
                     [(ToSocket s, JoinedRoom (joined r s nm c)),
                      (ToRoom code,
                       PlayerJoined \<lparr>name = nm, color = c, isHost = False\<rparr> (joined r s nm c))]) \<and>
              map_of (players (joined r s nm c)) s = Some \<lparr>name = nm, color = c, isHost = False\<rparr>"
  proof (cases "4 \<le> playerCount r")
    case True
    with rm show ?thesis by (simp add: joinRoom_def)
  next
    case full: False
    show ?thesis
    proof (cases "gameStarted r")
      case True
      with rm full show ?thesis by (simp add: joinRoom_def)
    next
      case False
      with full ok find_firstFree [of r] ent show ?thesis by auto
    qed
  qed
qed

theorem joinRoom_outcomes_witness:
  "joinRoom ''B'' ''X'' ''Bob'' [(''R'', lobbyRoom)] =
     Inr ([(''R'', lobbyRoom)], [(ToSocket ''B'', RoomError ''Room not found'')]) \<and>
   firstFree lobbyRoom (Some Green) \<and>
   joinRoom ''B'' ''R'' ''Bob'' [(''R'', lobbyRoom)] =
     Inr ([(''R'', joined lobbyRoom ''B'' ''Bob'' (Some Green))],
          [(ToSocket ''B'', JoinedRoom (joined lobbyRoom ''B'' ''Bob'' (Some Green))),
           (ToRoom ''R'',
            PlayerJoined \<lparr>name = ''Bob'', color = Some Green, isHost = False\<rparr>
              (joined lobbyRoom ''B'' ''Bob'' (Some Green)))])"
proof -
  have nf: "map_of [(''R'', lobbyRoom)] ''X'' = None" by simp
  have rm: "map_of [(''R'', lobbyRoom)] ''R'' = Some lobbyRoom" by simp
  have open_room: "\<not> 4 \<le> playerCount lobbyRoom" "\<not> gameStarted lobbyRoom"
    by (simp_all add: lobbyRoom_def createGameState_def)
  have green: "c = Some Green" if "firstFree lobbyRoom c" for c
    using that by (simp add: firstFree_iff colors_def usedColor_def lobbyRoom_def)
  note j1 = joinRoom_outcomes [of "[(''R'', lobbyRoom)]" "''X''" "''B''" "''Bob''"]
  note j2 = joinRoom_outcomes [of "[(''R'', lobbyRoom)]" "''R''" "''B''" "''Bob''"]
  from j1 nf have a: "joinRoom ''B'' ''X'' ''Bob'' [(''R'', lobbyRoom)] =
     Inr ([(''R'', lobbyRoom)], [(ToSocket ''B'', RoomError ''Room not found'')])" by blast
  from j2 rm open_room obtain c where c: "firstFree lobbyRoom c"
    and b: "joinRoom ''B'' ''R'' ''Bob'' [(''R'', lobbyRoom)] =
      Inr (AList.update ''R'' (joined lobbyRoom ''B'' ''Bob'' c) [(''R'', lobbyRoom)],
           [(ToSocket ''B'', JoinedRoom (joined lobbyRoom ''B'' ''Bob'' c)),
            (ToRoom ''R'',
             PlayerJoined \<lparr>name = ''Bob'', color = c, isHost = False\<rparr>
               (joined lobbyRoom ''B'' ''Bob'' c))])"
    by auto
  from a b c green [OF c] show ?thesis by simp
qed

text \<open>
  The colour is not the lexicographically first unused one: in a room whose only player is
  red, the joining player becomes green, while blue is unused and comes first by name.
\<close>

theorem join_not_lexicographic:
  "roomAfter [CreateRoom ''A'' ''R'' ''Alice''] ''R'' = Some lobbyRoom \<and>
   map_option playerColors
     (roomAfter [CreateRoom ''A'' ''R'' ''Alice'', JoinRoom ''B'' ''R'' ''Bob''] ''R'')
     = Some [(''A'', Some Red), (''B'', Some Green)] \<and>
   lexFirstUnused lobbyRoom = Some Blue \<and>
   colorName Blue < colorName Green"
  by (simp add: eval_defs lobbyRoom_def playerColors_def lexFirstUnused_def usedColor_def)

section \<open>Leaving a room\<close>

text \<open>
  The host check reads the departed socket's entry after it has been deleted, so it never
  fires: the players that remain keep the flags they had, and the turn index is not touched.
\<close>

lemma leaveRoom_players: "players (leaveRoom s r) = AList.delete s (players r)"
  by (simp add: leaveRoom_def Let_def delete_conv)

lemma leaveRoom_currentPlayer: "currentPlayer (leaveRoom s r) = currentPlayer r"
  by (simp add: leaveRoom_def Let_def delete_conv)

lemma leaveRoom_playerCount: "playerCount (leaveRoom s r) = playerCount r - 1"
  by (simp add: leaveRoom_def Let_def delete_conv)

lemma no_host_after_host_leaves:
  assumes "\<forall>(k, p) \<in> set (players r). isHost p \<longrightarrow> k = s"
  shows "\<forall>(k, p) \<in> set (players (leaveRoom s r)). \<not> isHost p"
  using assms by (auto simp: leaveRoom_players AList.delete_eq)

text \<open>
  Claim C1, at a concrete run. Alice creates room R and is its host, Bob joins, Alice
  disconnects: the room remains with Bob alone, and Bob is not host. No remaining player
  has \<open>isHost\<close> true, where the claim asks for exactly one.
\<close>

theorem host_not_transferred:
  "map_option hostFlags
     (roomAfter [CreateRoom ''A'' ''R'' ''Alice'', JoinRoom ''B'' ''R'' ''Bob''] ''R'')
     = Some [(''A'', True), (''B'', False)] \<and>
   map_option hostFlags
     (roomAfter [CreateRoom ''A'' ''R'' ''Alice'', JoinRoom ''B'' ''R'' ''Bob'', Disconnect ''A''] ''R'')
     = Some [(''B'', False)]"
  by (simp add: eval_defs hostFlags_def)

text \<open>
  Claim C3, at a concrete run. Alice and Bob start a game; Alice rolls a 3, cannot move, and
  the turn passes to index 1. Bob disconnects: the player count drops to 1 while
  \<open>currentPlayer\<close> stays 1, outside \<open>0 \<le> currentPlayer < playerCount\<close>. From then on no
  socket is the current player: Alice's next roll is answered "Not your turn".
\<close>

theorem turn_index_out_of_range_after_disconnect:
  "map_option turnInfo
     (roomAfter [CreateRoom ''A'' ''R'' ''Alice'', JoinRoom ''B'' ''R'' ''Bob'', StartGame ''A'' ''R'',
        RollDice ''A'' ''R'' 3] ''R'') = Some (Num 1, 2, Some 3) \<and>
   map_option turnInfo
     (roomAfter [CreateRoom ''A'' ''R'' ''Alice'', JoinRoom ''B'' ''R'' ''Bob'', StartGame ''A'' ''R'',
        RollDice ''A'' ''R'' 3, Disconnect ''B''] ''R'') = Some (Num 1, 1, Some 3) \<and>
   map_option playerIds
     (roomAfter [CreateRoom ''A'' ''R'' ''Alice'', JoinRoom ''B'' ''R'' ''Bob'', StartGame ''A'' ''R'',
        RollDice ''A'' ''R'' 3, Disconnect ''B''] ''R'') = Some [''A''] \<and>
   last (eventsOf [CreateRoom ''A'' ''R'' ''Alice'', JoinRoom ''B'' ''R'' ''Bob'', StartGame ''A'' ''R'',
        RollDice ''A'' ''R'' 3, Disconnect ''B'', RollDice ''A'' ''R'' 5])
     = (ToSocket ''A'', GameError ''Not your turn'')"
  by (simp add: eval_defs turnInfo_def playerIds_def)

section \<open>Entering the home stretch\<close>

text \<open>
  \<open>movePiece\<close> compares the wrapped cell \<open>(position + dice) % 52\<close> with the boundary. A
  crossing that does not wrap enters the stretch at index \<open>new - boundary\<close>, which is at
  most 6 for a die of 1 to 6. Red's boundary is cell 51, so for red every crossing wraps
  and the comparison \<open>newPosition > 51\<close> never holds.
\<close>

lemma js_rem_track: "0 \<le> a \<Longrightarrow> js_rem a BOARD_SIZE = a mod 52"
  by (cases "a = 0") (simp_all add: js_rem_def BOARD_SIZE_def)

lemma red_stays_on_track:
  assumes "onMainTrack p" "0 \<le> d"
  shows "\<not> isInHomeStretch (fst (movePiece p d Red))"
proof -
  from assms have nn: "0 \<le> position p + d" by (simp add: onMainTrack_def)
  have "(position p + d) mod 52 < 52" by simp
  then have "\<not> js_rem (position p + d) BOARD_SIZE > 51" using js_rem_track [OF nn] by simp
  with assms show ?thesis by (simp add: movePiece_def onMainTrack_def Let_def)
qed

lemma crossing_without_wrap:
  assumes "onMainTrack p" "1 \<le> d" "d \<le> 6" "crossesBoundary p d col"
    "position p + d < BOARD_SIZE"
  shows "movePiece p d col =
     (p\<lparr>position := 100 + (position p + d - HOME_STRETCH_START col), isInHomeStretch := True\<rparr>,
      True)"
proof -
  from assms have nn: "0 \<le> position p + d" by (simp add: onMainTrack_def)
  from assms(5) nn have "js_rem (position p + d) BOARD_SIZE = position p + d"
    using js_rem_track [OF nn] by (simp add: BOARD_SIZE_def)
  with assms show ?thesis
    by (simp add: movePiece_def onMainTrack_def crossesBoundary_def Let_def)
qed

lemma stretch_entry_within_six:
  assumes "onMainTrack p" "1 \<le> d" "d \<le> 6" "position p \<le> HOME_STRETCH_START col"
    "HOME_STRETCH_START col < js_rem (position p + d) BOARD_SIZE"
  shows "js_rem (position p + d) BOARD_SIZE - HOME_STRETCH_START col \<le> 6"
proof -
  from assms have nn: "0 \<le> position p + d" by (simp add: onMainTrack_def)
  have "(position p + d) mod 52 \<le> position p + d" using nn by (rule zmod_le_nonneg_dividend)
  with assms show ?thesis using js_rem_track [OF nn] by simp
qed

text \<open>
  Claim C2, at a concrete move. A red piece on main-track cell 50 moves by 3: it passes the
  boundary cell 51 and would enter the stretch at index 2. \<open>canMovePiece\<close> accepts the move
  and \<open>movePiece\<close> puts the piece on main-track cell 1, outside the home stretch.
\<close>

theorem red_never_enters_stretch_example:
  "onMainTrack \<lparr>position = 50, homeIndex = 0, isInHomeStretch = False\<rparr> \<and>
   crossesBoundary \<lparr>position = 50, homeIndex = 0, isInHomeStretch = False\<rparr> 3 Red \<and>
   canMovePiece \<lparr>position = 50, homeIndex = 0, isInHomeStretch = False\<rparr> 3 Red \<and>
   movePiece \<lparr>position = 50, homeIndex = 0, isInHomeStretch = False\<rparr> 3 Red
     = (\<lparr>position = 1, homeIndex = 0, isInHomeStretch = False\<rparr>, True)"
  by (simp add: onMainTrack_def crossesBoundary_def canMovePiece_def movePiece_def js_rem_def
      BOARD_SIZE_def)

section \<open>move-piece requests with a slot outside the array\<close>

text \<open>
  When it is the requester's turn and the slot is outside the colour's array, the handler
  throws. Every rejection it does answer goes to the requester alone and leaves the
  registry as it was.
\<close>

lemma bad_slot_throws:
  assumes "map_of rs code = Some r" "gameStarted r"
    "arrayGetNum (map fst (players r)) (currentPlayer r) = Some s"
    "map_of (players r) s = Some pl" "color pl = Some c"
    "idx < 0 \<or> int (length (piecesOf (pieces r) c)) \<le> idx"
  shows "movePieceHandler s code idx rs = Inl TypeError"
  using assms by (auto simp: movePieceHandler_def arrayGet_def)

lemma rejection_leaves_registry:
  assumes "movePieceHandler s code idx rs = Inr (rs', evs)" "(t, GameError m) \<in> set evs"
  shows "rs' = rs \<and> t = ToSocket s \<and> evs = [(ToSocket s, GameError ''Invalid move'')]"
proof (cases "\<exists>r pl c pc. map_of rs code = Some r \<and> canMovePiece pc (diceValue r) c \<and>
    executeMove s code idx pl c pc r rs = Inr (rs', evs)")
  case True
  then obtain r pl c pc where can: "canMovePiece pc (diceValue r) c"
    and ex: "executeMove s code idx pl c pc r rs = Inr (rs', evs)" by blast
  from executeMove_result [OF can, of s code idx pl rs] ex assms(2) show ?thesis
    by (auto split: if_splits)
next
  case False
  with assms show ?thesis
    by (auto simp: movePieceHandler_def Let_def split: if_splits option.splits)
qed

text \<open>
  Claim C4, at a concrete run. Alice and Bob start a game and Alice, whose turn it is,
  sends move-piece with slot 4, or with slot -1: the handler throws a TypeError instead of
  ignoring or rejecting the request.
\<close>

theorem move_piece_throws_on_bad_slot:
  "run [CreateRoom ''A'' ''R'' ''Alice'', JoinRoom ''B'' ''R'' ''Bob'', StartGame ''A'' ''R'',
        MovePiece ''A'' ''R'' 4] [] = Inl TypeError \<and>
   run [CreateRoom ''A'' ''R'' ''Alice'', JoinRoom ''B'' ''R'' ''Bob'', StartGame ''A'' ''R'',
        MovePiece ''A'' ''R'' (-1)] [] = Inl TypeError"
  by (simp add: eval_defs)

end
